theory Spec2Isabelle
  imports Main "HOL-Library.Word"
begin

unbundle bit_operations_syntax

section \<open>The HT16K33 driver (src/adafruit_ht16k33/ht16k33.py)\<close>

text \<open>
  The driver is one Python class. Its instance is a record, each of its methods is a function
  from the instance to an outcome and the instance afterwards: a Python exception leaves
  the mutations made before it in place, so the instance is returned on the error branch
  too. Python integers are \<open>int\<close>; the elements of a \<open>bytearray\<close> are \<open>8 word\<close>, read
  as integers in 0..255 and range checked when stored.
\<close>

subsection \<open>Exceptions\<close>

text \<open>
  The four \<open>ValueError\<close>s the driver raises itself, told apart by their message
  (\<open>XRange n\<close> is 'X value out of range: 0-n'), and the one a \<open>bytearray\<close> raises
  for a value outside range(0, 256).
\<close>

datatype message = BlinkRateRange | BrightnessRange | XRange int | YRange int | ByteRange

datatype error = ValueError message | IndexError | OSError

subsection \<open>Byte arrays\<close>

type_synonym byte = "8 word"

type_synonym bytearray = "byte list"

text \<open>\<open>b[i]\<close>: a negative index counts from the end, an index out of range raises.\<close>

definition bytearray_getitem :: "bytearray \<Rightarrow> int \<Rightarrow> error + int" where
  "bytearray_getitem b i =
     (let n = int (length b); j = (if i < 0 then n + i else i)
      in if 0 \<le> j \<and> j < n then Inr (uint (b ! nat j)) else Inl IndexError)"

text \<open>
  \<open>b[i] = v\<close>: \<open>v\<close> must be in range(0, 256), which is tested before the index; the
  index is as above.
\<close>

definition bytearray_setitem :: "bytearray \<Rightarrow> int \<Rightarrow> int \<Rightarrow> error + bytearray" where
  "bytearray_setitem b i v =
     (let n = int (length b); j = (if i < 0 then n + i else i)
      in if \<not> (0 \<le> v \<and> v < 256) then Inl (ValueError ByteRange)
         else if \<not> (0 \<le> j \<and> j < n) then Inl IndexError
         else Inr (b[nat j := word_of_int v]))"

subsection \<open>The bus device\<close>

text \<open>
  Modelled from the spec: the class \<open>adafruit_bus_device.i2c_device.I2CDevice\<close>, which the
  driver imports and which is not among the sources. By sections 5 and 6 of the spec a
  session supports a scoped \<open>write(bytes)\<close>, sent as one burst, and a bus failure
  propagates at once as a transport error. What the driver uses of it is that one
  transaction (\<open>with self.i2c_device: self.i2c_device.write(buf)\<close>). The device is a log
  of the transactions attempted so far, each with its payload and whether it was
  acknowledged, and the outcomes the bus will give to the coming writes, in order (\<open>False\<close>
  is a write that raises; once the list is used up, writes are acknowledged).
\<close>

record i2c_device =
  log :: "(bytearray \<times> bool) list"
  script :: "bool list"

definition i2c_write :: "i2c_device \<Rightarrow> bytearray \<Rightarrow> (error + unit) \<times> i2c_device" where
  "i2c_write d buf =
     (case script d of
        [] \<Rightarrow> (Inr (), d\<lparr>log := log d @ [(buf, True)]\<rparr>)
      | ok # rest \<Rightarrow>
          if ok then (Inr (), d\<lparr>log := log d @ [(buf, True)], script := rest\<rparr>)
          else (Inl OSError, d\<lparr>log := log d @ [(buf, False)], script := rest\<rparr>))"

text \<open>Whether the bus will acknowledge the next write.\<close>

definition next_write_acked :: "i2c_device \<Rightarrow> bool" where
  "next_write_acked d = (case script d of [] \<Rightarrow> True | ok # rest \<Rightarrow> ok)"

text \<open>The payloads of all transactions attempted, oldest first.\<close>

definition payloads :: "i2c_device \<Rightarrow> bytearray list" where
  "payloads d = map fst (log d)"

subsection \<open>The chip's registers\<close>






subsection \<open>The class\<close>

definition HT16K33_BLINK_CMD :: int where
  "HT16K33_BLINK_CMD = 0x80"

definition HT16K33_BLINK_DISPLAYON :: int where
  "HT16K33_BLINK_DISPLAYON = 0x01"

definition HT16K33_CMD_BRIGHTNESS :: int where
  "HT16K33_CMD_BRIGHTNESS = 0xE0"

definition HT16K33_OSCILATOR_ON :: int where
  "HT16K33_OSCILATOR_ON = 0x21"

text \<open>
  The attributes of an instance. \<open>self_blink_rate\<close> and \<open>self_brightness\<close> are \<open>None\<close>
  where Python's are.
\<close>

record ht16k33 =
  self_i2c_device :: i2c_device
  self_temp :: bytearray
  self_buffer :: bytearray
  self_size :: "int \<times> int"
  self_auto_write :: bool
  self_blink_rate :: "int option"
  self_brightness :: "int option"

type_synonym 'a action = "ht16k33 \<Rightarrow> (error + 'a) \<times> ht16k33"

text \<open>The property getters.\<close>

definition get_auto_write :: "ht16k33 \<Rightarrow> bool" where
  "get_auto_write s = self_auto_write s"


definition get_size :: "ht16k33 \<Rightarrow> int \<times> int" where
  "get_size s = self_size s"

definition get_blink_rate :: "ht16k33 \<Rightarrow> int option" where
  "get_blink_rate s = self_blink_rate s"

definition get_brightness :: "ht16k33 \<Rightarrow> int option" where
  "get_brightness s = self_brightness s"

text \<open>\<open>_write_cmd\<close>: the byte goes into \<open>_temp[0]\<close>, then \<open>_temp\<close> is written.\<close>

definition write_cmd :: "int \<Rightarrow> unit action" where
  "write_cmd byte s =
     (case bytearray_setitem (self_temp s) 0 byte of
        Inl e \<Rightarrow> (Inl e, s)
      | Inr t \<Rightarrow>
          (let s1 = s\<lparr>self_temp := t\<rparr>
           in case i2c_write (self_i2c_device s1) (self_temp s1) of
                (r, d) \<Rightarrow> (r, s1\<lparr>self_i2c_device := d\<rparr>)))"

text \<open>The setter of \<open>blink_rate\<close>. In Python \<open><<\<close> binds tighter than \<open>|\<close>.\<close>

definition set_blink_rate :: "int \<Rightarrow> unit action" where
  "set_blink_rate rate s =
     (if \<not> (0 \<le> rate \<and> rate \<le> 3) then (Inl (ValueError BlinkRateRange), s)
      else let rate1 = rate AND 0x03;
               s1 = s\<lparr>self_blink_rate := Some rate1\<rparr>
           in write_cmd (HT16K33_BLINK_CMD OR HT16K33_BLINK_DISPLAYON OR push_bit 1 rate1) s1)"

text \<open>The setter of \<open>brightness\<close>.\<close>

definition set_brightness :: "int \<Rightarrow> unit action" where
  "set_brightness brightness s =
     (if \<not> (0 \<le> brightness \<and> brightness \<le> 15) then (Inl (ValueError BrightnessRange), s)
      else let brightness1 = brightness AND 0x0F;
               s1 = s\<lparr>self_brightness := Some brightness1\<rparr>
           in write_cmd (HT16K33_CMD_BRIGHTNESS OR brightness1) s1)"

text \<open>
  \<open>show\<close> (a keyword of Isar, hence the longer name): one transaction, the whole buffer.
\<close>

definition show_buffer :: "unit action" where
  "show_buffer s =
     (case i2c_write (self_i2c_device s) (self_buffer s) of
        (r, d) \<Rightarrow> (r, s\<lparr>self_i2c_device := d\<rparr>))"

text \<open>
  \<open>fill\<close>: the loop \<open>for i in range(16): self._buffer[i+1] = fill\<close> over the list of
  indices still to do, then \<open>show\<close> under auto-write. The argument is the truth value of
  Python's \<open>color\<close>.
\<close>

fun fill_loop :: "nat list \<Rightarrow> int \<Rightarrow> unit action" where
  "fill_loop [] v s = (Inr (), s)"
| "fill_loop (i # is) v s =
     (case bytearray_setitem (self_buffer s) (int i + 1) v of
        Inl e \<Rightarrow> (Inl e, s)
      | Inr b \<Rightarrow> fill_loop is v (s\<lparr>self_buffer := b\<rparr>))"

definition fill :: "bool \<Rightarrow> unit action" where
  "fill color s =
     (let v = (if color then 0xff else 0x00)
      in case fill_loop [0..<16] v s of
           (Inl e, s1) \<Rightarrow> (Inl e, s1)
         | (Inr u, s1) \<Rightarrow> if self_auto_write s1 then show_buffer s1 else (Inr (), s1))"

text \<open>The two locals of \<open>_pixel\<close>: \<open>addr = 2*y + x // 8\<close> and \<open>mask = 1 << x % 8\<close>.\<close>

definition pixel_addr :: "int \<Rightarrow> int \<Rightarrow> int" where
  "pixel_addr x y = 2 * y + x div 8"

definition pixel_mask :: "int \<Rightarrow> int" where
  "pixel_mask x = push_bit (nat (x mod 8)) 1"

text \<open>
  \<open>_pixel\<close>. The colour is \<open>None\<close> for Python's \<open>None\<close> (a read, which returns a bool) and
  \<open>Some c\<close> for any other value of truth value \<open>c\<close> (a write, which returns \<open>None\<close>).
  \<open>self._buffer[addr + 1] |= mask\<close> reads the byte, computes on integers and stores.
\<close>

definition pixel :: "int \<Rightarrow> int \<Rightarrow> bool option \<Rightarrow> bool option action" where
  "pixel x y color s =
     (if \<not> (0 \<le> x \<and> x < fst (get_size s))
        then (Inl (ValueError (XRange (fst (get_size s) - 1))), s)
      else if \<not> (0 \<le> y \<and> y < snd (get_size s))
        then (Inl (ValueError (YRange (snd (get_size s) - 1))), s)
      else
        let addr = pixel_addr x y; mask = pixel_mask x
        in case color of
             None \<Rightarrow>
               (case bytearray_getitem (self_buffer s) (addr + 1) of
                  Inl e \<Rightarrow> (Inl e, s)
                | Inr v \<Rightarrow> (Inr (Some (v AND mask \<noteq> 0)), s))
           | Some c \<Rightarrow>
               (case bytearray_getitem (self_buffer s) (addr + 1) of
                  Inl e \<Rightarrow> (Inl e, s)
                | Inr v \<Rightarrow>
                    (case bytearray_setitem (self_buffer s) (addr + 1)
                            (if c then v OR mask else v AND NOT mask) of
                       Inl e \<Rightarrow> (Inl e, s)
                     | Inr b \<Rightarrow>
                         (let s1 = s\<lparr>self_buffer := b\<rparr>
                          in if self_auto_write s1
                             then (case show_buffer s1 of
                                     (Inl e, s2) \<Rightarrow> (Inl e, s2)
                                   | (Inr u, s2) \<Rightarrow> (Inr None, s2))
                             else (Inr None, s1)))))"

text \<open>\<open>__getitem__\<close> and \<open>__setitem__\<close>: the spec's getPixel and setPixel.\<close>

definition getitem :: "int \<times> int \<Rightarrow> bool option action" where
  "getitem key s = (case key of (x, y) \<Rightarrow> pixel x y None s)"

definition setitem :: "int \<times> int \<Rightarrow> bool option \<Rightarrow> unit action" where
  "setitem key val s =
     (case key of (x, y) \<Rightarrow>
        (case pixel x y val s of (Inl e, s1) \<Rightarrow> (Inl e, s1) | (Inr r, s1) \<Rightarrow> (Inr (), s1)))"

text \<open>\<open>_set_buffer\<close> and \<open>_get_buffer\<close>.\<close>

definition set_buffer :: "int \<Rightarrow> int \<Rightarrow> unit action" where
  "set_buffer i v s =
     (case bytearray_setitem (self_buffer s) (i + 1) v of
        Inl e \<Rightarrow> (Inl e, s)
      | Inr b \<Rightarrow> (Inr (), s\<lparr>self_buffer := b\<rparr>))"

definition get_buffer :: "int \<Rightarrow> int action" where
  "get_buffer i s =
     (case bytearray_getitem (self_buffer s) (i + 1) of
        Inl e \<Rightarrow> (Inl e, s)
      | Inr v \<Rightarrow> (Inr v, s))"

text \<open>
  \<open>__init__\<close>, given the opened bus device. \<open>bytearray(n)\<close> is \<open>n\<close> zero bytes. An
  exception leaves no instance; the record returned with it shows what was sent.
\<close>

definition init :: "i2c_device \<Rightarrow> int \<times> int \<Rightarrow> bool \<Rightarrow> (error + unit) \<times> ht16k33" where
  "init dev sz auto_write =
     (let s0 = \<lparr>self_i2c_device = dev, self_temp = replicate 1 0, self_buffer = replicate 17 0,
                self_size = sz, self_auto_write = auto_write,
                self_blink_rate = None, self_brightness = None\<rparr>
      in case fill False s0 of
           (Inl e, s1) \<Rightarrow> (Inl e, s1)
         | (Inr u, s1) \<Rightarrow>
             (case write_cmd HT16K33_OSCILATOR_ON s1 of
                (Inl e, s2) \<Rightarrow> (Inl e, s2)
              | (Inr u, s2) \<Rightarrow>
                  (let s3 = s2\<lparr>self_blink_rate := None, self_brightness := None\<rparr>
                   in case set_blink_rate 0 s3 of
                        (Inl e, s4) \<Rightarrow> (Inl e, s4)
                      | (Inr u, s4) \<Rightarrow> set_brightness 15 s4)))"

text \<open>A bus device on which nothing was sent yet and every write is acknowledged.\<close>

definition fresh_bus :: i2c_device where
  "fresh_bus = \<lparr>log = [], script = []\<rparr>"

text \<open>
  The shape of the two byte arrays: \<open>bytearray(17)\<close> with the register address 0 in
  front, and \<open>bytearray(1)\<close>.
\<close>

definition invar :: "ht16k33 \<Rightarrow> bool" where
  "invar s \<longleftrightarrow> length (self_buffer s) = 17 \<and> self_buffer s ! 0 = 0 \<and> length (self_temp s) = 1"

subsection \<open>Auxiliary notions for the statements\<close>

text \<open>The byte \<open>w\<close> with bit \<open>x mod 8\<close> set (\<open>c\<close>) or cleared.\<close>

definition new_byte :: "int \<Rightarrow> bool \<Rightarrow> byte \<Rightarrow> byte" where
  "new_byte x c w =
     (if c then w OR push_bit (nat (x mod 8)) 1 else w AND NOT (push_bit (nat (x mod 8)) 1))"


text \<open>
  Instances for the examples: the default size with and without auto-write, a size with
  one row more than the buffer holds, and one on a bus whose fifth write fails.
\<close>

definition display_16x8 :: ht16k33 where
  "display_16x8 = snd (init fresh_bus (16, 8) False)"

definition display_auto :: ht16k33 where
  "display_auto = snd (init fresh_bus (16, 8) True)"

definition display_16x9 :: ht16k33 where
  "display_16x9 = snd (init fresh_bus (16, 9) False)"


section \<open>Bytes, masks and addresses\<close>

lemma pixel_mask_pow: "pixel_mask x = 2 ^ nat (x mod 8)"
  by (simp add: pixel_mask_def push_bit_eq_mult)

lemma pixel_mask_bounds: "0 < pixel_mask x \<and> pixel_mask x < 256"
proof -
  have "nat (x mod 8) < 8" by simp
  then have "(2::int) ^ nat (x mod 8) < 2 ^ 8" by (rule power_strict_increasing) simp
  then show ?thesis by (simp add: pixel_mask_pow)
qed

lemma uint_byte_bounds: "0 \<le> uint (w :: byte) \<and> uint w < 256"
  using uint_lt2p [of w] by simp

lemma or_mask_range: "0 \<le> uint (w::byte) OR pixel_mask x \<and> uint w OR pixel_mask x < 256"
proof -
  have "uint w OR pixel_mask x < 2 ^ 8"
    using uint_byte_bounds [of w] pixel_mask_bounds [of x] by (intro OR_upper) simp_all
  then show ?thesis using pixel_mask_bounds [of x] by simp
qed

lemma and_not_mask_range:
  "0 \<le> uint (w::byte) AND NOT (pixel_mask x) \<and> uint w AND NOT (pixel_mask x) < 256"
proof -
  have "uint w AND NOT (pixel_mask x) \<le> uint w" by (rule AND_upper1) simp
  then show ?thesis using uint_byte_bounds [of w] by simp
qed

lemma word_or_mask:
  "(word_of_int (uint (w::byte) OR pixel_mask x) :: byte) = w OR push_bit (nat (x mod 8)) 1"
  by (rule bit_word_eqI) (auto simp add: bit_simps pixel_mask_def)

lemma word_and_not_mask:
  "(word_of_int (uint (w::byte) AND NOT (pixel_mask x)) :: byte) =
     w AND NOT (push_bit (nat (x mod 8)) 1)"
  by (rule bit_word_eqI) (auto simp add: bit_simps pixel_mask_def)

lemma and_mask_bit: "(uint (w::byte) AND pixel_mask x \<noteq> 0) = bit w (nat (x mod 8))"
proof -
  have "(uint w AND 2 ^ nat (x mod 8) = 0) = (\<not> bit (uint w) (nat (x mod 8)))"
    by (rule and_exp_eq_0_iff_not_bit)
  moreover have "nat (x mod 8) < 8" by simp
  ultimately show ?thesis unfolding pixel_mask_pow bit_uint_iff by auto
qed

lemma bit_new_byte:
  "bit (new_byte x c w) j = (if j = nat (x mod 8) then c \<and> j < 8 else bit w j)"
  by (auto simp add: new_byte_def bit_simps dest: bit_imp_le_length)

lemma pixel_addr_nonneg: "0 \<le> x \<Longrightarrow> 0 \<le> y \<Longrightarrow> 0 \<le> pixel_addr x y"
  by (simp add: pixel_addr_def)

lemma pixel_addr_default: "0 \<le> x \<Longrightarrow> x < 16 \<Longrightarrow> 0 \<le> y \<Longrightarrow> y < 8 \<Longrightarrow> pixel_addr x y \<le> 15"
  by (simp add: pixel_addr_def)

lemma bytearray_getitem_in:
  "0 \<le> i \<Longrightarrow> i < int (length b) \<Longrightarrow> bytearray_getitem b i = Inr (uint (b ! nat i))"
  by (simp add: bytearray_getitem_def)

lemma bytearray_getitem_out:
  "0 \<le> i \<Longrightarrow> \<not> i < int (length b) \<Longrightarrow> bytearray_getitem b i = Inl IndexError"
  by (simp add: bytearray_getitem_def)

lemma bytearray_setitem_in:
  "0 \<le> i \<Longrightarrow> i < int (length b) \<Longrightarrow> 0 \<le> v \<Longrightarrow> v < 256 \<Longrightarrow>
     bytearray_setitem b i v = Inr (b[nat i := word_of_int v])"
  by (simp add: bytearray_setitem_def)

section \<open>What a pixel access does\<close>

lemma i2c_write_eq:
  "i2c_write d buf =
     (if next_write_acked d then Inr () else Inl OSError,
      d\<lparr>log := log d @ [(buf, next_write_acked d)], script := tl (script d)\<rparr>)"
  by (simp add: i2c_write_def next_write_acked_def split: list.splits)

lemma show_buffer_eq:
  "show_buffer s =
     (if next_write_acked (self_i2c_device s) then Inr () else Inl OSError,
      s\<lparr>self_i2c_device := (self_i2c_device s)
          \<lparr>log := log (self_i2c_device s) @ [(self_buffer s, next_write_acked (self_i2c_device s))],
           script := tl (script (self_i2c_device s))\<rparr>\<rparr>)"
  by (simp add: show_buffer_def i2c_write_eq)

lemma show_buffer_fields:
  "self_buffer (snd (show_buffer s)) = self_buffer s"
  "self_temp (snd (show_buffer s)) = self_temp s"
  "self_size (snd (show_buffer s)) = self_size s"
  "self_auto_write (snd (show_buffer s)) = self_auto_write s"
  "self_blink_rate (snd (show_buffer s)) = self_blink_rate s"
  "self_brightness (snd (show_buffer s)) = self_brightness s"
  by (simp_all add: show_buffer_def split: prod.splits)

lemma pixel_read:
  assumes "0 \<le> x" "x < fst (get_size s)" "0 \<le> y" "y < snd (get_size s)"
    and "pixel_addr x y + 1 < int (length (self_buffer s))"
  shows "pixel x y None s =
           (Inr (Some (bit (self_buffer s ! nat (pixel_addr x y + 1)) (nat (x mod 8)))), s)"
  using assms pixel_addr_nonneg [of x y]
  by (simp add: pixel_def bytearray_getitem_in and_mask_bit)

lemma pixel_out:
  assumes "0 \<le> x" "x < fst (get_size s)" "0 \<le> y" "y < snd (get_size s)"
    and "\<not> pixel_addr x y + 1 < int (length (self_buffer s))"
  shows "pixel x y color s = (Inl IndexError, s)"
  using assms pixel_addr_nonneg [of x y]
  by (simp add: pixel_def bytearray_getitem_out Let_def split: option.splits)

lemma pixel_write:
  assumes "0 \<le> x" "x < fst (get_size s)" "0 \<le> y" "y < snd (get_size s)"
    and "pixel_addr x y + 1 < int (length (self_buffer s))"
  shows "snd (pixel x y (Some c) s) =
     (let s1 = s\<lparr>self_buffer := (self_buffer s)[nat (pixel_addr x y + 1) :=
                    new_byte x c (self_buffer s ! nat (pixel_addr x y + 1))]\<rparr>
      in if self_auto_write s then snd (show_buffer s1) else s1)"
  using assms pixel_addr_nonneg [of x y] or_mask_range and_not_mask_range
  by (simp add: pixel_def bytearray_getitem_in bytearray_setitem_in word_or_mask
      word_and_not_mask new_byte_def Let_def split: prod.splits sum.splits)

lemma pixel_write_fields:
  assumes "0 \<le> x" "x < fst (get_size s)" "0 \<le> y" "y < snd (get_size s)"
    and "pixel_addr x y + 1 < int (length (self_buffer s))"
  shows "self_buffer (snd (pixel x y (Some c) s)) =
           (self_buffer s)[nat (pixel_addr x y + 1) :=
              new_byte x c (self_buffer s ! nat (pixel_addr x y + 1))]"
    and "get_size (snd (pixel x y (Some c) s)) = get_size s"
  using assms by (simp_all add: pixel_write Let_def show_buffer_fields get_size_def)

lemma snd_setitem: "snd (setitem (x, y) v s) = snd (pixel x y v s)"
  by (simp add: setitem_def split: prod.splits sum.splits)

lemma pixel_write_result:
  assumes "0 \<le> x" "x < fst (get_size s)" "0 \<le> y" "y < snd (get_size s)"
    and "pixel_addr x y + 1 < int (length (self_buffer s))"
  shows "fst (pixel x y (Some c) s) =
     (if self_auto_write s \<and> \<not> next_write_acked (self_i2c_device s) then Inl OSError
      else Inr None)"
  using assms pixel_addr_nonneg [of x y] or_mask_range and_not_mask_range
  by (simp add: pixel_def bytearray_getitem_in bytearray_setitem_in show_buffer_eq Let_def)

lemma fst_setitem:
  "fst (setitem (x, y) v s) = (case fst (pixel x y v s) of Inl e \<Rightarrow> Inl e | Inr r \<Rightarrow> Inr ())"
  by (simp add: setitem_def split: prod.splits sum.splits)

section \<open>Claims about pixel access\<close>

text \<open>
  C1, as stated: for every valid coordinate and every colour, setPixel followed by getPixel
  returns the colour. The constructor accepts any size, and the buffer has 16 data bytes:
  on an instance of size (16, 9) the coordinate (0, 8) is valid, its address is 16, and
  setPixel raises an \<open>IndexError\<close>.
\<close>

theorem setitem_getitem_16x9_counterexample:
  "fst (init fresh_bus (16, 9) False) = Inr () \<and>
   0 < fst (get_size display_16x9) \<and> 8 < snd (get_size display_16x9) \<and>
   fst (setitem (0, 8) (Some True) display_16x9) = Inl IndexError \<and>
   fst (getitem (0, 8) (snd (setitem (0, 8) (Some True) display_16x9))) \<noteq> Inr (Some True)"
  by code_simp

text \<open>
  C1, amended: for every valid coordinate \<open>(x, y)\<close> whose address \<open>2*y + x div 8\<close> is at most
  15 and every colour \<open>c\<close>, \<open>setPixel(x, y, c)\<close> followed by \<open>getPixel(x, y)\<close> returns \<open>c\<close>.
  setPixel itself returns normally unless auto-write is on and the bus does not acknowledge
  the frame; the bit is stored in either case.
\<close>

theorem setitem_getitem_roundtrip:
  assumes "invar s"
    and "0 \<le> x" "x < fst (get_size s)" "0 \<le> y" "y < snd (get_size s)"
    and "pixel_addr x y \<le> 15"
  shows "fst (setitem (x, y) (Some c) s) =
      (if get_auto_write s \<and> \<not> next_write_acked (self_i2c_device s) then Inl OSError
       else Inr ()) \<and>
    fst (getitem (x, y) (snd (setitem (x, y) (Some c) s))) = Inr (Some c)"
proof -
  have len: "pixel_addr x y + 1 < int (length (self_buffer s))"
    using assms by (simp add: invar_def)
  have "nat (x mod 8) < 8" by simp
  then have "fst (getitem (x, y) (snd (setitem (x, y) (Some c) s))) = Inr (Some c)"
    using assms(2-5) len pixel_addr_nonneg [of x y]
    by (simp add: snd_setitem getitem_def pixel_read pixel_write_fields bit_new_byte)
  moreover have "fst (setitem (x, y) (Some c) s) =
      (if get_auto_write s \<and> \<not> next_write_acked (self_i2c_device s) then Inl OSError
       else Inr ())"
    using assms(2-5) len by (simp add: fst_setitem pixel_write_result get_auto_write_def)
  ultimately show ?thesis by simp
qed

theorem setitem_getitem_roundtrip_witness:
  "invar display_auto \<and> (0::int) \<le> 11 \<and> 11 < fst (get_size display_auto) \<and>
   (0::int) \<le> 5 \<and> 5 < snd (get_size display_auto) \<and> pixel_addr 11 5 \<le> 15 \<and>
   fst (setitem (11, 5) (Some True) display_auto) = Inr () \<and>
   fst (getitem (11, 5) (snd (setitem (11, 5) (Some True) display_auto))) = Inr (Some True)"
proof -
  have h1: "invar display_auto" by code_simp
  have h2: "(0::int) \<le> 11" by simp
  have h3: "11 < fst (get_size display_auto)" by code_simp
  have h4: "(0::int) \<le> 5" by simp
  have h5: "5 < snd (get_size display_auto)" by code_simp
  have h6: "pixel_addr 11 5 \<le> 15" by code_simp
  have a: "next_write_acked (self_i2c_device display_auto)" by code_simp
  show ?thesis
    using setitem_getitem_roundtrip [OF h1 h2 h3 h4 h5 h6, of True] h1 h3 h5 h6 a by simp
qed

lemma two_digit_inj:
  "0 \<le> a \<Longrightarrow> a \<le> 1 \<Longrightarrow> 0 \<le> a' \<Longrightarrow> a' \<le> 1 \<Longrightarrow> 2 * y' + a' = 2 * y + a \<Longrightarrow> a' = a \<and> y' = (y::int)"
  by arith

lemma addr_bit_inj:
  assumes "0 \<le> x" "x < 16" "0 \<le> x'" "x' < 16"
    and "pixel_addr x' y' = pixel_addr x y" "x' mod 8 = x mod 8"
  shows "x' = x \<and> y' = y"
proof -
  have a: "0 \<le> x div 8 \<and> x div 8 \<le> 1" using assms(1,2) by presburger
  have a': "0 \<le> x' div 8 \<and> x' div 8 \<le> 1" using assms(3,4) by presburger
  have e: "2 * y' + x' div 8 = 2 * y + x div 8" using assms(5) by (simp add: pixel_addr_def)
  have d: "x' div 8 = x div 8" and y: "y' = y"
    using two_digit_inj [of "x div 8" "x' div 8" y' y] a a' e by simp_all
  have "x' = 8 * (x' div 8) + x' mod 8" by simp
  also have "\<dots> = 8 * (x div 8) + x mod 8" using d assms(6) by simp
  also have "\<dots> = x" by simp
  finally show ?thesis using y by simp
qed

lemma pixel_mask_inj: "pixel_mask x' = pixel_mask x \<Longrightarrow> x' mod 8 = x mod 8"
proof -
  assume "pixel_mask x' = pixel_mask x"
  then have "(2::int) ^ nat (x' mod 8) = 2 ^ nat (x mod 8)" by (simp add: pixel_mask_pow)
  then have "nat (x' mod 8) = nat (x mod 8)" by simp
  then show "x' mod 8 = x mod 8" by simp
qed

text \<open>
  C2: at the default size (16, 8), for every valid coordinate the address
  \<open>2*y + x div 8\<close> lies in 0..15, the mask is bit \<open>x mod 8\<close>, and two distinct valid
  coordinates with the same address have different bit positions (and masks).
\<close>

theorem default_size_addr_bit:
  assumes "get_size s = (16, 8)"
    and "0 \<le> x" "x < fst (get_size s)" "0 \<le> y" "y < snd (get_size s)"
  shows "0 \<le> pixel_addr x y \<and> pixel_addr x y \<le> 15 \<and> pixel_mask x = 2 ^ nat (x mod 8) \<and>
    (\<forall>x' y'. 0 \<le> x' \<and> x' < fst (get_size s) \<and> 0 \<le> y' \<and> y' < snd (get_size s) \<and>
        (x', y') \<noteq> (x, y) \<and> pixel_addr x' y' = pixel_addr x y \<longrightarrow>
        x' mod 8 \<noteq> x mod 8 \<and> pixel_mask x' \<noteq> pixel_mask x)"
proof (intro conjI allI impI)
  have x: "0 \<le> x" "x < 16" and y: "0 \<le> y" "y < 8" using assms by simp_all
  show "0 \<le> pixel_addr x y" using x y by (simp add: pixel_addr_nonneg)
  show "pixel_addr x y \<le> 15" using x y by (simp add: pixel_addr_default)
  show "pixel_mask x = 2 ^ nat (x mod 8)" by (rule pixel_mask_pow)
  fix x' y'
  assume h: "0 \<le> x' \<and> x' < fst (get_size s) \<and> 0 \<le> y' \<and> y' < snd (get_size s) \<and>
        (x', y') \<noteq> (x, y) \<and> pixel_addr x' y' = pixel_addr x y"
  then have x': "0 \<le> x'" "x' < 16" and a: "pixel_addr x' y' = pixel_addr x y"
    using assms(1) by simp_all
  from h have ne: "x' \<noteq> x \<or> y' \<noteq> y" by simp
  show m: "x' mod 8 \<noteq> x mod 8"
    using addr_bit_inj [OF x x' a] ne by blast
  show "pixel_mask x' \<noteq> pixel_mask x"
    using pixel_mask_inj [of x' x] m by blast
qed

theorem default_size_addr_bit_witness:
  "get_size display_16x8 = (16, 8) \<and> 11 < fst (get_size display_16x8) \<and>
   5 < snd (get_size display_16x8) \<and> pixel_addr 11 5 = 11 \<and> pixel_mask 11 = 8 \<and>
   pixel_addr 12 5 = pixel_addr 11 5 \<and> pixel_mask 12 \<noteq> pixel_mask 11"
proof -
  have h1: "get_size display_16x8 = (16, 8)" by code_simp
  have h2: "(0::int) \<le> 11" and h4: "(0::int) \<le> 5" by simp_all
  have h3: "11 < fst (get_size display_16x8)" and h5: "5 < snd (get_size display_16x8)"
    by code_simp+
  have a: "pixel_addr 11 5 = 11" "pixel_addr 12 5 = 11" by (simp_all add: pixel_addr_def)
  have "pixel_mask 11 = 8" using default_size_addr_bit [OF h1 h2 h3 h4 h5] by simp
  moreover have "pixel_mask 12 \<noteq> pixel_mask 11"
  proof -
    have "0 \<le> (12::int) \<and> 12 < fst (get_size display_16x8) \<and> 0 \<le> (5::int) \<and>
        5 < snd (get_size display_16x8) \<and> ((12::int), (5::int)) \<noteq> (11, 5) \<and>
        pixel_addr 12 5 = pixel_addr 11 5 \<longrightarrow>
        (12::int) mod 8 \<noteq> 11 mod 8 \<and> pixel_mask 12 \<noteq> pixel_mask 11"
      using default_size_addr_bit [OF h1 h2 h3 h4 h5] by blast
    then show ?thesis using h1 a by simp
  qed
  ultimately show ?thesis using h1 a by simp
qed

section \<open>What fill and show do\<close>

lemma fill_loop_ok:
  assumes "\<forall>i \<in> set is. Suc i < length (self_buffer s)" "0 \<le> v" "v < 256"
  shows "fill_loop is v s =
    (Inr (), s\<lparr>self_buffer := fold (\<lambda>i b. b[Suc i := word_of_int v]) is (self_buffer s)\<rparr>)"
  using assms
proof (induction "is" arbitrary: s)
  case Nil
  then show ?case by simp
next
  case (Cons i "is")
  have "int i + 1 < int (length (self_buffer s))" using Cons.prems(1) by simp
  then have st: "bytearray_setitem (self_buffer s) (int i + 1) v =
      Inr ((self_buffer s)[Suc i := word_of_int v])"
    using Cons.prems(2,3) by (simp add: bytearray_setitem_in nat_add_distrib)
  show ?case using Cons.prems by (simp add: st Cons.IH)
qed

lemma nth_fold_update:
  "k < length b \<Longrightarrow>
   fold (\<lambda>i b. b[Suc i := w]) is b ! k = (if \<exists>i \<in> set is. k = Suc i then w else b ! k)"
  by (induction "is" arbitrary: b) (auto simp add: nth_list_update)

lemma length_fold_update: "length (fold (\<lambda>i b. b[Suc i := w]) is b) = length b"
  by (induction "is" arbitrary: b) auto

lemma fold_update_all:
  assumes "length b = 17"
  shows "fold (\<lambda>i b. b[Suc i := w]) [0..<16] b = b ! 0 # replicate 16 w"
proof (rule nth_equalityI)
  show "length (fold (\<lambda>i b. b[Suc i := w]) [0..<16] b) = length (b ! 0 # replicate 16 w)"
    using assms by (simp add: length_fold_update)
next
  fix k assume "k < length (fold (\<lambda>i b. b[Suc i := w]) [0..<16] b)"
  then have k: "k < 17" using assms by (simp add: length_fold_update)
  show "fold (\<lambda>i b. b[Suc i := w]) [0..<16] b ! k = (b ! 0 # replicate 16 w) ! k"
  proof (cases k)
    case 0
    then show ?thesis using assms by (simp add: nth_fold_update)
  next
    case (Suc j)
    then have "j < 16" using k by simp
    then show ?thesis using assms k Suc by (simp add: nth_fold_update)
  qed
qed

lemma fill_eq:
  assumes "length (self_buffer s) = 17"
  shows "fill c s =
     (let s1 = s\<lparr>self_buffer := self_buffer s ! 0 # replicate 16 (if c then 0xFF else 0x00)\<rparr>
      in if self_auto_write s then show_buffer s1 else (Inr (), s1))"
proof -
  have "fill_loop [0..<16] (if c then 0xff else 0x00) s =
     (Inr (), s\<lparr>self_buffer := fold (\<lambda>i b. b[Suc i := word_of_int (if c then 0xff else 0x00)]) [0..<16] (self_buffer s)\<rparr>)"
    using assms by (intro fill_loop_ok) auto
  then show ?thesis using assms
    by (cases c) (simp_all add: fill_def fold_update_all Let_def)
qed

lemma fill_fields:
  assumes "length (self_buffer s) = 17"
  shows "self_buffer (snd (fill c s)) = self_buffer s ! 0 # replicate 16 (if c then 0xFF else 0x00)"
    and "get_size (snd (fill c s)) = get_size s"
  using assms by (simp_all add: fill_eq Let_def show_buffer_fields get_size_def)

lemma bit_full_byte: "bit (0xFF :: byte) j = (j < 8)"
proof -
  have e: "(0xFF :: byte) = - 1" by simp
  show ?thesis by (subst e) (simp add: bit_simps)
qed

section \<open>Claims about fill and the bounds of a pixel access\<close>

text \<open>
  C3, as stated: after \<open>fill(true)\<close> getPixel returns true for every valid coordinate. On
  an instance of size (16, 9) the coordinate (0, 8) is valid and, after \<open>fill(true)\<close>,
  getPixel raises an \<open>IndexError\<close> there.
\<close>

theorem fill_then_getitem_16x9_counterexample:
  "fst (init fresh_bus (16, 9) False) = Inr () \<and>
   0 < fst (get_size display_16x9) \<and> 8 < snd (get_size display_16x9) \<and>
   fst (fill True display_16x9) = Inr () \<and>
   fst (getitem (0, 8) (snd (fill True display_16x9))) = Inl IndexError"
  by code_simp

text \<open>
  C3, amended: \<open>fill(c)\<close> sets all 16 data bytes to \<open>0xFF\<close> (\<open>c\<close> true) or \<open>0x00\<close> (\<open>c\<close>
  false) and leaves byte 0 as it was; afterwards getPixel returns \<open>c\<close> at every valid
  coordinate whose address \<open>2*y + x div 8\<close> is at most 15.
\<close>

theorem fill_then_getitem:
  assumes "invar s"
  shows "self_buffer (snd (fill c s)) =
           self_buffer s ! 0 # replicate 16 (if c then 0xFF else 0x00) \<and>
    (\<forall>x y. 0 \<le> x \<and> x < fst (get_size s) \<and> 0 \<le> y \<and> y < snd (get_size s) \<and>
        pixel_addr x y \<le> 15 \<longrightarrow>
        fst (getitem (x, y) (snd (fill c s))) = Inr (Some c))"
proof (intro conjI allI impI)
  have len: "length (self_buffer s) = 17" using assms by (simp add: invar_def)
  show b: "self_buffer (snd (fill c s)) =
           self_buffer s ! 0 # replicate 16 (if c then 0xFF else 0x00)"
    using len by (rule fill_fields)
  fix x y
  assume h: "0 \<le> x \<and> x < fst (get_size s) \<and> 0 \<le> y \<and> y < snd (get_size s) \<and>
        pixel_addr x y \<le> 15"
  let ?s1 = "snd (fill c s)"
  have sz: "get_size ?s1 = get_size s" using len by (rule fill_fields)
  have a: "0 \<le> pixel_addr x y" using h by (simp add: pixel_addr_nonneg)
  define k where "k = nat (pixel_addr x y)"
  have k1: "nat (pixel_addr x y + 1) = Suc k"
    using a by (simp add: k_def nat_add_distrib)
  have k2: "k < 16" using a h unfolding k_def by linarith
  note k = k1 k2
  have j: "nat (x mod 8) < 8" by simp
  have "self_buffer ?s1 ! Suc k = (if c then 0xFF else 0x00)"
    using k2 by (simp add: b)
  then have v: "bit (self_buffer ?s1 ! Suc k) (nat (x mod 8)) = c"
    using j bit_full_byte [of "nat (x mod 8)"] by (cases c) simp_all
  have "pixel x y None ?s1 = (Inr (Some (bit (self_buffer ?s1 ! nat (pixel_addr x y + 1)) (nat (x mod 8)))), ?s1)"
    using h a by (intro pixel_read) (simp_all add: sz b)
  then have "pixel x y None ?s1 = (Inr (Some c), ?s1)"
    using v by (simp add: k1)
  then show "fst (getitem (x, y) (snd (fill c s))) = Inr (Some c)"
    by (simp add: getitem_def)
qed

theorem fill_then_getitem_witness:
  "invar display_16x8 \<and>
   self_buffer (snd (fill True display_16x8)) = 0 # replicate 16 0xFF \<and>
   11 < fst (get_size display_16x8) \<and> 5 < snd (get_size display_16x8) \<and> pixel_addr 11 5 \<le> 15 \<and>
   fst (getitem (11, 5) (snd (fill True display_16x8))) = Inr (Some True)"
proof -
  have h1: "invar display_16x8" by code_simp
  have h2: "0 \<le> (11::int) \<and> 11 < fst (get_size display_16x8) \<and> 0 \<le> (5::int) \<and>
      5 < snd (get_size display_16x8) \<and> pixel_addr 11 5 \<le> 15" by code_simp
  have z: "self_buffer display_16x8 ! 0 = 0" using h1 by (simp add: invar_def)
  have "fst (getitem (11, 5) (snd (fill True display_16x8))) = Inr (Some True)"
    using fill_then_getitem [OF h1, of True] h2 by blast
  moreover have "self_buffer (snd (fill True display_16x8)) = 0 # replicate 16 0xFF"
    using fill_then_getitem [OF h1, of True] z by simp
  ultimately show ?thesis using h1 h2 by simp
qed

text \<open>
  C5, as stated: getPixel(width - 1, height - 1) succeeds. On an instance of size (16, 9)
  it raises an \<open>IndexError\<close>.
\<close>

theorem getitem_last_16x9_counterexample:
  "fst (init fresh_bus (16, 9) False) = Inr () \<and>
   fst (getitem (fst (get_size display_16x9) - 1, snd (get_size display_16x9) - 1) display_16x9)
     = Inl IndexError"
  by code_simp

text \<open>
  C5, amended: getPixel(width, 0) fails with the X-range error; getPixel(0, height) fails
  with a range error (the Y-range error when the width is positive); getPixel(width - 1,
  height - 1) returns the bit of that pixel when width and height are positive and the
  address of that pixel is at most 15; and whenever \<open>x\<close> is out of range the X-range error is
  the one reported, whatever \<open>y\<close> is.
\<close>

theorem getitem_bounds:
  "fst (getitem (fst (get_size s), 0) s) = Inl (ValueError (XRange (fst (get_size s) - 1))) \<and>
   fst (getitem (0, snd (get_size s)) s) =
     Inl (ValueError (if 0 < fst (get_size s) then YRange (snd (get_size s) - 1)
                      else XRange (fst (get_size s) - 1))) \<and>
   (invar s \<and> 0 < fst (get_size s) \<and> 0 < snd (get_size s) \<and>
    pixel_addr (fst (get_size s) - 1) (snd (get_size s) - 1) \<le> 15 \<longrightarrow>
      fst (getitem (fst (get_size s) - 1, snd (get_size s) - 1) s) =
        Inr (Some (bit (self_buffer s ! nat (pixel_addr (fst (get_size s) - 1) (snd (get_size s) - 1) + 1))
                       (nat ((fst (get_size s) - 1) mod 8))))) \<and>
   (\<not> (0 \<le> x \<and> x < fst (get_size s)) \<longrightarrow>
      fst (getitem (x, y) s) = Inl (ValueError (XRange (fst (get_size s) - 1))))"
proof (intro conjI impI)
  show "fst (getitem (fst (get_size s), 0) s) = Inl (ValueError (XRange (fst (get_size s) - 1)))"
    by (simp add: getitem_def pixel_def)
  show "fst (getitem (0, snd (get_size s)) s) =
     Inl (ValueError (if 0 < fst (get_size s) then YRange (snd (get_size s) - 1)
                      else XRange (fst (get_size s) - 1)))"
    by (simp add: getitem_def pixel_def)
  show "fst (getitem (x, y) s) = Inl (ValueError (XRange (fst (get_size s) - 1)))"
    if "\<not> (0 \<le> x \<and> x < fst (get_size s))"
    using that by (auto simp add: getitem_def pixel_def)
  assume h: "invar s \<and> 0 < fst (get_size s) \<and> 0 < snd (get_size s) \<and>
    pixel_addr (fst (get_size s) - 1) (snd (get_size s) - 1) \<le> 15"
  then have "pixel_addr (fst (get_size s) - 1) (snd (get_size s) - 1) + 1 < int (length (self_buffer s))"
    by (simp add: invar_def)
  then show "fst (getitem (fst (get_size s) - 1, snd (get_size s) - 1) s) =
        Inr (Some (bit (self_buffer s ! nat (pixel_addr (fst (get_size s) - 1) (snd (get_size s) - 1) + 1))
                       (nat ((fst (get_size s) - 1) mod 8))))"
    using h by (simp add: getitem_def pixel_read)
qed

theorem getitem_bounds_witness:
  "invar display_16x8 \<and> 0 < fst (get_size display_16x8) \<and> 0 < snd (get_size display_16x8) \<and>
   pixel_addr (fst (get_size display_16x8) - 1) (snd (get_size display_16x8) - 1) \<le> 15 \<and>
   fst (getitem (16, 0) display_16x8) = Inl (ValueError (XRange 15)) \<and>
   fst (getitem (0, 8) display_16x8) = Inl (ValueError (YRange 7)) \<and>
   fst (getitem (15, 7) display_16x8) = Inr (Some False) \<and>
   \<not> (0 \<le> (16::int) \<and> 16 < fst (get_size display_16x8)) \<and>
   fst (getitem (16, 8) display_16x8) = Inl (ValueError (XRange 15))"
proof -
  have sz: "get_size display_16x8 = (16, 8)" by code_simp
  have h: "invar display_16x8 \<and> 0 < fst (get_size display_16x8) \<and> 0 < snd (get_size display_16x8) \<and>
    pixel_addr (fst (get_size display_16x8) - 1) (snd (get_size display_16x8) - 1) \<le> 15"
    by code_simp
  have b: "\<not> bit (self_buffer display_16x8 ! nat (pixel_addr 15 7 + 1)) (nat (15 mod 8))"
    by code_simp
  have n: "\<not> (0 \<le> (16::int) \<and> 16 < fst (get_size display_16x8))" by (simp add: sz)
  show ?thesis
    using getitem_bounds [of display_16x8 16 8] h b n by (simp add: sz)
qed

text \<open>
  C10: for every valid coordinate and colour, setPixel leaves the length of the buffer and
  byte 0 as they were, and every bit of every byte other than bit \<open>x mod 8\<close> of the byte at
  index \<open>addr + 1\<close>, with or without auto-write.
\<close>

theorem setitem_changes_one_bit:
  assumes "0 \<le> x" "x < fst (get_size s)" "0 \<le> y" "y < snd (get_size s)"
  shows "length (self_buffer (snd (setitem (x, y) (Some c) s))) = length (self_buffer s) \<and>
     self_buffer (snd (setitem (x, y) (Some c) s)) ! 0 = self_buffer s ! 0 \<and>
     (\<forall>i j. \<not> (i = nat (pixel_addr x y + 1) \<and> j = nat (x mod 8)) \<longrightarrow>
        bit (self_buffer (snd (setitem (x, y) (Some c) s)) ! i) j = bit (self_buffer s ! i) j)"
proof (cases "pixel_addr x y + 1 < int (length (self_buffer s))")
  case False
  then show ?thesis using assms by (simp add: snd_setitem pixel_out)
next
  case True
  have a: "0 \<le> pixel_addr x y" using assms by (simp add: pixel_addr_nonneg)
  then have nz: "nat (pixel_addr x y + 1) \<noteq> 0" by simp
  have lt: "nat (pixel_addr x y + 1) < length (self_buffer s)" using True a by simp
  have b: "self_buffer (snd (setitem (x, y) (Some c) s)) =
      (self_buffer s)[nat (pixel_addr x y + 1) :=
         new_byte x c (self_buffer s ! nat (pixel_addr x y + 1))]"
    using assms True by (simp add: snd_setitem pixel_write_fields)
  show ?thesis unfolding b using nz lt
    by (auto simp add: nth_list_update bit_new_byte)
qed

theorem setitem_changes_one_bit_witness:
  "11 < fst (get_size display_auto) \<and> 5 < snd (get_size display_auto) \<and>
   length (self_buffer (snd (setitem (11, 5) (Some True) display_auto))) = 17 \<and>
   self_buffer (snd (setitem (11, 5) (Some True) display_auto)) ! 0 = 0 \<and>
   bit (self_buffer (snd (setitem (11, 5) (Some True) display_auto)) ! 12) 2 =
     bit (self_buffer display_auto ! 12) 2 \<and>
   bit (self_buffer (snd (setitem (11, 5) (Some True) display_auto)) ! 12) 3 \<and>
   \<not> bit (self_buffer display_auto ! 12) 3"
proof -
  have h1: "(0::int) \<le> 11" and h3: "(0::int) \<le> 5" by simp_all
  have h2: "11 < fst (get_size display_auto)" and h4: "5 < snd (get_size display_auto)"
    by code_simp+
  have e: "length (self_buffer display_auto) = 17" "self_buffer display_auto ! 0 = 0"
    "nat (pixel_addr 11 5 + 1) = 12" by code_simp+
  have n: "bit (self_buffer (snd (setitem (11, 5) (Some True) display_auto)) ! 12) 3"
    "\<not> bit (self_buffer display_auto ! 12) 3" by code_simp+
  have "\<not> (12 = nat (pixel_addr 11 5 + 1) \<and> (2::nat) = nat (11 mod 8))" by simp
  then have "bit (self_buffer (snd (setitem (11, 5) (Some True) display_auto)) ! 12) 2 =
     bit (self_buffer display_auto ! 12) 2"
    using setitem_changes_one_bit [OF h1 h2 h3 h4, of True] by blast
  then show ?thesis
    using setitem_changes_one_bit [OF h1 h2 h3 h4, of True] h2 h4 e n by simp
qed

section \<open>What the command writes do\<close>

lemma write_cmd_eq:
  assumes "length (self_temp s) = 1" "0 \<le> b" "b < 256"
  shows "write_cmd b s =
     (if next_write_acked (self_i2c_device s) then Inr () else Inl OSError,
      s\<lparr>self_temp := [word_of_int b],
        self_i2c_device := (self_i2c_device s)
          \<lparr>log := log (self_i2c_device s) @ [([word_of_int b], next_write_acked (self_i2c_device s))],
           script := tl (script (self_i2c_device s))\<rparr>\<rparr>)"
proof -
  obtain t where t: "self_temp s = [t]" using assms(1) by (cases "self_temp s") auto
  show ?thesis using assms(2,3)
    by (simp add: write_cmd_def bytearray_setitem_def t i2c_write_eq)
qed

lemma blink_rate_mask: "0 \<le> rate \<Longrightarrow> rate \<le> 3 \<Longrightarrow> rate AND 0x03 = (rate::int)"
proof -
  assume "0 \<le> rate" "rate \<le> 3"
  then have "rate = 0 \<or> rate = 1 \<or> rate = 2 \<or> rate = 3" by arith
  then show ?thesis by auto
qed

lemma blink_cmd_range:
  "0 \<le> rate \<Longrightarrow> rate \<le> 3 \<Longrightarrow>
   0 \<le> (0x80 OR 0x01 OR push_bit 1 rate :: int) \<and> (0x80 OR 0x01 OR push_bit 1 rate :: int) < 256"
proof -
  assume "0 \<le> rate" "rate \<le> 3"
  then have "rate = 0 \<or> rate = 1 \<or> rate = 2 \<or> rate = 3" by arith
  then show ?thesis by auto
qed

lemma brightness_mask: "0 \<le> level \<Longrightarrow> level \<le> 15 \<Longrightarrow> level AND 0x0F = (level::int)"
proof -
  assume h: "0 \<le> level" "level \<le> 15"
  have "level AND mask 4 = take_bit 4 level" by (simp add: take_bit_eq_mask)
  also have "\<dots> = level" using h by (simp add: take_bit_int_eq_self)
  finally show ?thesis by (simp add: mask_eq_exp_minus_1)
qed

lemma brightness_cmd_range:
  "0 \<le> level \<Longrightarrow> level \<le> 15 \<Longrightarrow> 0 \<le> (0xE0 OR level :: int) \<and> (0xE0 OR level :: int) < 256"
proof -
  assume h: "0 \<le> level" "level \<le> 15"
  have "(0xE0 OR level :: int) < 2 ^ 8" using h by (intro OR_upper) simp_all
  then show ?thesis using h by simp
qed

lemma set_blink_rate_eq:
  assumes "length (self_temp s) = 1" "0 \<le> rate" "rate \<le> 3"
  shows "set_blink_rate rate s =
     (if next_write_acked (self_i2c_device s) then Inr () else Inl OSError,
      s\<lparr>self_blink_rate := Some rate,
        self_temp := [word_of_int (0x80 OR 0x01 OR push_bit 1 rate)],
        self_i2c_device := (self_i2c_device s)
          \<lparr>log := log (self_i2c_device s) @
                  [([word_of_int (0x80 OR 0x01 OR push_bit 1 rate)], next_write_acked (self_i2c_device s))],
           script := tl (script (self_i2c_device s))\<rparr>\<rparr>)"
  using assms blink_cmd_range [of rate]
  by (simp add: set_blink_rate_def blink_rate_mask write_cmd_eq
      HT16K33_BLINK_CMD_def HT16K33_BLINK_DISPLAYON_def Let_def)

lemma set_brightness_eq:
  assumes "length (self_temp s) = 1" "0 \<le> level" "level \<le> 15"
  shows "set_brightness level s =
     (if next_write_acked (self_i2c_device s) then Inr () else Inl OSError,
      s\<lparr>self_brightness := Some level,
        self_temp := [word_of_int (0xE0 OR level)],
        self_i2c_device := (self_i2c_device s)
          \<lparr>log := log (self_i2c_device s) @
                  [([word_of_int (0xE0 OR level)], next_write_acked (self_i2c_device s))],
           script := tl (script (self_i2c_device s))\<rparr>\<rparr>)"
  using assms brightness_cmd_range [of level]
  by (simp add: set_brightness_def brightness_mask write_cmd_eq HT16K33_CMD_BRIGHTNESS_def Let_def)

section \<open>Claims about the blink rate and the brightness\<close>

text \<open>
  C4: for every rate outside 0..3 the setter of the blink rate fails with its range error,
  and for every level outside 0..15 the setter of the brightness fails with its range
  error; the cached value and the bus device (its log of transactions and what it will
  answer) are as before, as is the whole instance: nothing was sent.
\<close>

theorem setters_reject_out_of_range:
  "(\<not> (0 \<le> rate \<and> rate \<le> 3) \<longrightarrow>
      fst (set_blink_rate rate s) = Inl (ValueError BlinkRateRange) \<and>
      get_blink_rate (snd (set_blink_rate rate s)) = get_blink_rate s \<and>
      self_i2c_device (snd (set_blink_rate rate s)) = self_i2c_device s \<and>
      snd (set_blink_rate rate s) = s) \<and>
   (\<not> (0 \<le> level \<and> level \<le> 15) \<longrightarrow>
      fst (set_brightness level s) = Inl (ValueError BrightnessRange) \<and>
      get_brightness (snd (set_brightness level s)) = get_brightness s \<and>
      self_i2c_device (snd (set_brightness level s)) = self_i2c_device s \<and>
      snd (set_brightness level s) = s)"
  by (simp add: set_blink_rate_def set_brightness_def)

theorem setters_reject_out_of_range_witness:
  "\<not> (0 \<le> (4::int) \<and> (4::int) \<le> 3) \<and> \<not> (0 \<le> (-1::int) \<and> (-1::int) \<le> 15) \<and>
   fst (set_blink_rate 4 display_auto) = Inl (ValueError BlinkRateRange) \<and>
   get_blink_rate (snd (set_blink_rate 4 display_auto)) = Some 0 \<and>
   payloads (self_i2c_device (snd (set_blink_rate 4 display_auto))) =
     payloads (self_i2c_device display_auto) \<and>
   fst (set_brightness (- 1) display_auto) = Inl (ValueError BrightnessRange) \<and>
   get_brightness (snd (set_brightness (- 1) display_auto)) = Some 15 \<and>
   payloads (self_i2c_device (snd (set_brightness (- 1) display_auto))) =
     payloads (self_i2c_device display_auto)"
proof -
  have g: "get_blink_rate display_auto = Some 0" "get_brightness display_auto = Some 15"
    by code_simp+
  show ?thesis
    using setters_reject_out_of_range [of 4 display_auto "- 1"] g by simp
qed

text \<open>
  C9: with the rate in 0..3 the setter of the blink rate makes exactly one transaction, of the
  single byte \<open>0x80 | 0x01 | (rate << 1)\<close>, and returns normally exactly when the bus
  acknowledges it; with the level in 0..15 the setter of the brightness does the same with
  the byte \<open>0xE0 | level\<close>.
\<close>

theorem setters_command_byte:
  assumes "invar s"
  shows "(0 \<le> rate \<and> rate \<le> 3 \<longrightarrow>
      (fst (set_blink_rate rate s) = Inr ()) = next_write_acked (self_i2c_device s) \<and>
      log (self_i2c_device (snd (set_blink_rate rate s))) =
        log (self_i2c_device s) @
          [([word_of_int (0x80 OR 0x01 OR push_bit 1 rate)], next_write_acked (self_i2c_device s))]) \<and>
    (0 \<le> level \<and> level \<le> 15 \<longrightarrow>
      (fst (set_brightness level s) = Inr ()) = next_write_acked (self_i2c_device s) \<and>
      log (self_i2c_device (snd (set_brightness level s))) =
        log (self_i2c_device s) @
          [([word_of_int (0xE0 OR level)], next_write_acked (self_i2c_device s))])"
proof -
  have t: "length (self_temp s) = 1" using assms by (simp add: invar_def)
  show ?thesis by (simp add: set_blink_rate_eq [OF t] set_brightness_eq [OF t])
qed

theorem setters_command_byte_witness:
  "invar display_auto \<and> 0 \<le> (2::int) \<and> (2::int) \<le> 3 \<and> 0 \<le> (7::int) \<and> (7::int) \<le> 15 \<and>
   next_write_acked (self_i2c_device display_auto) \<and>
   fst (set_blink_rate 2 display_auto) = Inr () \<and>
   log (self_i2c_device (snd (set_blink_rate 2 display_auto))) =
     log (self_i2c_device display_auto) @ [([0x85], True)] \<and>
   fst (set_brightness 7 display_auto) = Inr () \<and>
   log (self_i2c_device (snd (set_brightness 7 display_auto))) =
     log (self_i2c_device display_auto) @ [([0xE7], True)]"
proof -
  have h: "invar display_auto" by code_simp
  have a: "next_write_acked (self_i2c_device display_auto)" by code_simp
  have b: "(word_of_int (0x80 OR 0x01 OR push_bit 1 2) :: byte) = 0x85"
    "(word_of_int (0xE0 OR 7) :: byte) = 0xE7" by code_simp+
  show ?thesis
    using setters_command_byte [OF h, of 2 7] h a b by simp
qed

section \<open>The shape of an instance is kept\<close>

text \<open>
  \<open>invar\<close> holds after \<open>__init__\<close> and is kept by every operation (by \<open>_set_buffer\<close> for
  an index that is not negative).
\<close>

lemma invar_show_buffer: "invar s \<Longrightarrow> invar (snd (show_buffer s))"
  by (simp add: invar_def show_buffer_fields)

lemma invar_fill: "invar s \<Longrightarrow> invar (snd (fill c s))"
  by (simp add: invar_def fill_eq Let_def show_buffer_fields)

lemma invar_pixel:
  assumes "invar s"
  shows "invar (snd (pixel x y color s))"
proof (cases "0 \<le> x \<and> x < fst (get_size s) \<and> 0 \<le> y \<and> y < snd (get_size s)")
  case False
  then show ?thesis using assms by (auto simp add: pixel_def)
next
  case valid: True
  show ?thesis
  proof (cases "pixel_addr x y + 1 < int (length (self_buffer s))")
    case False
    then show ?thesis using assms valid by (simp add: pixel_out)
  next
    case True
    show ?thesis
    proof (cases color)
      case None
      then show ?thesis using assms valid True by (simp add: pixel_read)
    next
      case (Some c)
      have "0 \<le> pixel_addr x y" using valid by (simp add: pixel_addr_nonneg)
      then have "nat (pixel_addr x y + 1) \<noteq> 0" by simp
      then show ?thesis using assms valid True Some
        by (simp add: pixel_write Let_def invar_def show_buffer_fields)
    qed
  qed
qed

lemma invar_set_blink_rate: "invar s \<Longrightarrow> invar (snd (set_blink_rate rate s))"
  by (cases "0 \<le> rate \<and> rate \<le> 3")
     (auto simp add: invar_def set_blink_rate_eq, auto simp add: set_blink_rate_def)

lemma invar_set_brightness: "invar s \<Longrightarrow> invar (snd (set_brightness level s))"
  by (cases "0 \<le> level \<and> level \<le> 15")
     (auto simp add: invar_def set_brightness_eq, auto simp add: set_brightness_def)

lemma invar_set_buffer: "0 \<le> i \<Longrightarrow> invar s \<Longrightarrow> invar (snd (set_buffer i v s))"
  by (auto simp add: set_buffer_def bytearray_setitem_def invar_def Let_def nat_add_distrib
      split: sum.splits if_splits)

lemma next_write_acked_log:
  "next_write_acked (d\<lparr>log := l\<rparr>) = next_write_acked d"
  "next_write_acked (d\<lparr>log := l, script := sc\<rparr>) = next_write_acked (d\<lparr>script := sc\<rparr>)"
  by (simp_all add: next_write_acked_def)

lemma replicate_17: "replicate 17 x = x # replicate 16 x"
proof -
  have "replicate (Suc 16) x = x # replicate 16 x" by (rule replicate_Suc)
  then show ?thesis by simp
qed

lemmas init_steps = init_def fill_eq show_buffer_eq write_cmd_eq set_blink_rate_eq
  set_brightness_eq next_write_acked_log replicate_17 HT16K33_OSCILATOR_ON_def Let_def

lemma invar_init: "invar (snd (init d sz aw))"
  by (cases aw) (simp_all add: init_steps invar_def)

section \<open>Claims about the transactions on the bus\<close>

text \<open>
  C6, as stated: construction issues exactly 4 transactions, the first of them the cleared
  frame. \<open>fill\<close> sends the frame only under auto-write: constructed with
  \<open>auto_write=False\<close> on a bus that acknowledges everything, the instance has issued 3.
\<close>

theorem init_no_auto_write_counterexample:
  "fst (init fresh_bus (16, 8) False) = Inr () \<and>
   length (log (self_i2c_device (snd (init fresh_bus (16, 8) False)))) = 3 \<and>
   payloads (self_i2c_device (snd (init fresh_bus (16, 8) False))) = [[0x21], [0x81], [0xEF]]"
  by code_simp

text \<open>
  C6, amended: a construction that completes has issued, in this order and each as a
  transaction of its own, the 17-byte cleared frame if auto-write is on (and no frame if it
  is off), then the single bytes \<open>0x21\<close> (oscillator on), \<open>0x81\<close> (blink rate 0) and
  \<open>0xEF\<close> (brightness 15): 4 transactions with auto-write, 3 without. On a bus that
  acknowledges every write the construction completes.
\<close>

theorem init_transactions:
  "(fst (init d sz aw) = Inr () \<longrightarrow>
      log (self_i2c_device (snd (init d sz aw))) =
        log d @ (if aw then [(replicate 17 0, True)] else []) @
          [([0x21], True), ([0x81], True), ([0xEF], True)]) \<and>
   (script d = [] \<longrightarrow> fst (init d sz aw) = Inr ())"
proof (intro conjI impI)
  assume "fst (init d sz aw) = Inr ()"
  then show "log (self_i2c_device (snd (init d sz aw))) =
        log d @ (if aw then [(replicate 17 0, True)] else []) @
          [([0x21], True), ([0x81], True), ([0xEF], True)]"
    by (cases aw) (simp_all add: init_steps split: if_splits)
next
  assume "script d = []"
  then show "fst (init d sz aw) = Inr ()"
    by (simp add: init_steps next_write_acked_def)
qed

theorem init_transactions_witness:
  "script fresh_bus = [] \<and> fst (init fresh_bus (16, 8) True) = Inr () \<and>
   log (self_i2c_device (snd (init fresh_bus (16, 8) True))) =
     [(replicate 17 0, True), ([0x21], True), ([0x81], True), ([0xEF], True)] \<and>
   fst (init fresh_bus (16, 8) False) = Inr () \<and>
   log (self_i2c_device (snd (init fresh_bus (16, 8) False))) =
     [([0x21], True), ([0x81], True), ([0xEF], True)]"
proof -
  have h: "script fresh_bus = []" "log fresh_bus = []" by (simp_all add: fresh_bus_def)
  show ?thesis
    using init_transactions [of fresh_bus "(16, 8)" True]
      init_transactions [of fresh_bus "(16, 8)" False] h
    by simp
qed

text \<open>
  C7: without auto-write, setPixel on a valid coordinate leaves the bus device as it was;
  \<open>show\<close> after it makes exactly one transaction, whose payload is the buffer as
  setPixel left it, 17 bytes long with byte 0 equal to 0.
\<close>

theorem setitem_then_show:
  assumes "invar s" "\<not> get_auto_write s"
    and "0 \<le> x" "x < fst (get_size s)" "0 \<le> y" "y < snd (get_size s)"
  shows "self_i2c_device (snd (setitem (x, y) (Some c) s)) = self_i2c_device s \<and>
    log (self_i2c_device (snd (show_buffer (snd (setitem (x, y) (Some c) s))))) =
      log (self_i2c_device s) @
        [(self_buffer (snd (setitem (x, y) (Some c) s)), next_write_acked (self_i2c_device s))] \<and>
    length (self_buffer (snd (setitem (x, y) (Some c) s))) = 17 \<and>
    self_buffer (snd (setitem (x, y) (Some c) s)) ! 0 = 0"
proof -
  let ?s1 = "snd (setitem (x, y) (Some c) s)"
  have d: "self_i2c_device ?s1 = self_i2c_device s"
  proof (cases "pixel_addr x y + 1 < int (length (self_buffer s))")
    case True
    then show ?thesis using assms by (simp add: snd_setitem pixel_write get_auto_write_def)
  next
    case False
    then show ?thesis using assms by (simp add: snd_setitem pixel_out)
  qed
  have "invar ?s1" using assms(1) by (simp add: snd_setitem invar_pixel)
  then have i: "length (self_buffer ?s1) = 17" "self_buffer ?s1 ! 0 = 0"
    by (simp_all add: invar_def)
  have "log (self_i2c_device (snd (show_buffer ?s1))) =
      log (self_i2c_device ?s1) @ [(self_buffer ?s1, next_write_acked (self_i2c_device ?s1))]"
    by (simp add: show_buffer_eq)
  then show ?thesis using d i by simp
qed

theorem setitem_then_show_witness:
  "invar display_16x8 \<and> \<not> get_auto_write display_16x8 \<and>
   11 < fst (get_size display_16x8) \<and> 5 < snd (get_size display_16x8) \<and>
   payloads (self_i2c_device (snd (setitem (11, 5) (Some True) display_16x8))) =
     [[0x21], [0x81], [0xEF]] \<and>
   log (self_i2c_device (snd (show_buffer (snd (setitem (11, 5) (Some True) display_16x8))))) =
     [([0x21], True), ([0x81], True), ([0xEF], True),
      ([0, 0, 0, 0, 0, 0, 0, 0, 0, 0, 0, 0, 8, 0, 0, 0, 0], True)]"
proof -
  have h1: "invar display_16x8" and h2: "\<not> get_auto_write display_16x8" by code_simp+
  have h3: "(0::int) \<le> 11" and h5: "(0::int) \<le> 5" by simp_all
  have h4: "11 < fst (get_size display_16x8)" and h6: "5 < snd (get_size display_16x8)"
    by code_simp+
  have e: "log (self_i2c_device display_16x8) = [([0x21], True), ([0x81], True), ([0xEF], True)]"
    "next_write_acked (self_i2c_device display_16x8)"
    "self_buffer (snd (setitem (11, 5) (Some True) display_16x8)) =
       [0, 0, 0, 0, 0, 0, 0, 0, 0, 0, 0, 0, 8, 0, 0, 0, 0]"
    by code_simp+
  show ?thesis
    using setitem_then_show [OF h1 h2 h3 h4 h5 h6, of True] h1 h2 h4 h6 e
    by (simp add: payloads_def)
qed

section \<open>The cached settings and the registers of the chip\<close>


















end
